theory Spec2Isabelle
  imports Complex_Main
begin

section \<open>Python values\<close>

text \<open>A raised Python exception, with its message.\<close>

datatype exn = Exception string

text \<open>\<open>str(n)\<close> for a non-negative integer: its decimal digits.\<close>

definition digit_char :: "nat \<Rightarrow> char" where
  "digit_char d = ''0123456789'' ! d"

fun str_nat :: "nat \<Rightarrow> string" where
  "str_nat n = (if n < 10 then [digit_char n] else str_nat (n div 10) @ [digit_char (n mod 10)])"

declare str_nat.simps [simp del]

text \<open>\<open>s.split(sep)\<close> for a one-character separator: every occurrence of the separator
  cuts, and the result always has at least one (possibly empty) piece.\<close>

fun py_split :: "char \<Rightarrow> string \<Rightarrow> string list" where
  "py_split sep [] = [[]]"
| "py_split sep (c # cs) =
     (if c = sep then [] # py_split sep cs
      else (case py_split sep cs of
              [] \<Rightarrow> [[c]]
            | w # ws \<Rightarrow> (c # w) # ws))"

definition newline :: char where
  "newline = CHR 0x0A"

section \<open>Shared state (dpdce.py, lines 130-145)\<close>

text \<open>The predistorter data is a tagged tuple: \<open>('poly', coefs_am, coefs_pm)\<close> or
  \<open>('lut', scalefactor, lut)\<close>.\<close>

datatype dpddata = Poly "real list" "real list" | Lut real "real list"

record settings_dict =
  rx_gain :: real
  tx_gain :: real
  digital_gain :: real
  dpddata :: dpddata

record results_dict =
  tx_median :: real
  rx_median :: real
  state :: string
  stateprogress :: int
  summary :: "string list"

text \<open>The \<open>results\<close> dictionary as the module creates it (lines 137-143).\<close>

definition initial_results :: results_dict where
  "initial_results =
     \<lparr>tx_median = 0, rx_median = 0, state = ''Idle'', stateprogress = 0,
      summary = [''DPD has not been calibrated yet'']\<rparr>"

section \<open>Collaborators of the worker\<close>

text \<open>
  The classes \<open>Agc\<close>, \<open>Measure\<close> and \<open>Adapt\<close> live in the \<open>dpd\<close> package, whose code is
  not part of \<open>dpdce.py\<close>. Their calls are parameters: each gives, for the number of
  calls made to it before, what that call does: it raises (\<open>Inl\<close>) or returns (\<open>Inr\<close>).
  \<open>meas.get_samples()\<close> returns six values; they are kept in a record.
\<close>

record measurement =
  txframe_aligned :: "complex list"
  tx_ts :: real
  rxframe_aligned :: "complex list"
  rx_ts :: real
  meas_rx_median :: real
  meas_tx_median :: real

record env =
  agc_run :: "nat \<Rightarrow> exn + (bool \<times> string)"
  meas_get_samples :: "nat \<Rightarrow> exn + measurement"
  adapt_get_rxgain :: "nat \<Rightarrow> exn + real"
  adapt_get_digital_gain :: "nat \<Rightarrow> exn + real"

text \<open>
  The state the worker thread acts on: the two shared dictionaries, the value of
  \<open>results\<close> each time the lock was released (what \<open>get_results\<close> can have been
  served), and how many calls each collaborator has received.
\<close>

record wstate =
  settings :: settings_dict
  results :: results_dict
  snapshots :: "results_dict list"
  agc_calls :: nat
  meas_calls :: nat
  rxgain_calls :: nat
  dgain_calls :: nat

text \<open>Leaving a \<open>with lock:\<close> block: the current \<open>results\<close> become observable.\<close>

definition release :: "wstate \<Rightarrow> wstate" where
  "release st = st\<lparr>snapshots := snapshots st @ [results st]\<rparr>"

section \<open>The worker (dpdce.py, lines 150-188)\<close>

definition N_ITER :: nat where
  "N_ITER = 5"

text \<open>
  \<open>int((i + 1) * 100/N_ITER)\<close>: true division, then truncation. Both operands are
  non-negative integers, so this is the integer quotient.
\<close>

definition progress_of :: "nat \<Rightarrow> int" where
  "progress_of i = int (((i + 1) * 100) div N_ITER)"

definition run_header :: "nat \<Rightarrow> string" where
  "run_header i = ''calibration run '' @ str_nat i @ '':''"

text \<open>
  One pass of the body of \<open>for i in range(N_ITER)\<close> (lines 165-169), up to the test of
  \<open>agc_success\<close>: the AGC call, the new value of the local \<open>summary\<close>, the progress
  published under the lock. \<open>Inl\<close> is an exception escaping from \<open>agc.run()\<close>.
\<close>

definition agc_round :: "env \<Rightarrow> nat \<Rightarrow> wstate \<Rightarrow> (exn \<times> wstate) + ((bool \<times> string list) \<times> wstate)" where
  "agc_round e i st =
     (let st1 = st\<lparr>agc_calls := Suc (agc_calls st)\<rparr> in
      case agc_run e (agc_calls st) of
        Inl x \<Rightarrow> Inl (x, st1)
      | Inr (agc_success, agc_summary) \<Rightarrow>
          Inr ((agc_success, run_header i # py_split newline agc_summary),
               release (st1\<lparr>results := (results st1)\<lparr>stateprogress := progress_of i\<rparr>\<rparr>)))"

text \<open>The \<open>for\<close> loop over the remaining indices, with its \<open>break\<close> (lines 164-172).\<close>

fun calibrate_rounds :: "env \<Rightarrow> nat list \<Rightarrow> string list \<Rightarrow> wstate \<Rightarrow> (exn \<times> wstate) + (string list \<times> wstate)" where
  "calibrate_rounds e [] summ st = Inr (summ, st)"
| "calibrate_rounds e (i # rest) summ st =
     (case agc_round e i st of
        Inl err \<Rightarrow> Inl err
      | Inr ((agc_success, summ'), st') \<Rightarrow>
          if \<not> agc_success then Inr (summ', st') else calibrate_rounds e rest summ' st')"

text \<open>
  The last \<open>with lock:\<close> block (lines 176-183). The two adapter reads happen inside the
  block, so an exception of the second one leaves \<open>settings['rx_gain']\<close> already
  written. \<open>float(x)\<close> of a number keeps its value.
\<close>

definition publish_calibration :: "env \<Rightarrow> measurement \<Rightarrow> string list \<Rightarrow> wstate \<Rightarrow> (exn \<times> wstate) + wstate" where
  "publish_calibration e m summ st =
     (let st1 = st\<lparr>rxgain_calls := Suc (rxgain_calls st)\<rparr> in
      case adapt_get_rxgain e (rxgain_calls st) of
        Inl x \<Rightarrow> Inl (x, release st1)
      | Inr g \<Rightarrow>
          (let st2 = st1\<lparr>settings := (settings st1)\<lparr>rx_gain := g\<rparr>,
                         dgain_calls := Suc (dgain_calls st1)\<rparr> in
           case adapt_get_digital_gain e (dgain_calls st1) of
             Inl x \<Rightarrow> Inl (x, release st2)
           | Inr d \<Rightarrow>
               Inr (release (st2\<lparr>settings := (settings st2)\<lparr>digital_gain := d\<rparr>,
                       results := (results st2)\<lparr>tx_median := meas_tx_median m,
                                                rx_median := meas_rx_median m,
                                                state := ''Idle'',
                                                stateprogress := 0,
                                                summary := ''Calibration was done:'' # summ\<rparr>\<rparr>))))"

text \<open>The branch \<open>elif cmd == "calibrate"\<close> (lines 158-183).\<close>

definition calibrate :: "env \<Rightarrow> wstate \<Rightarrow> (exn \<times> wstate) + wstate" where
  "calibrate e st =
     (let st0 = release (st\<lparr>results := (results st)\<lparr>state := ''RX Gain Calibration'',
                                                     stateprogress := 0\<rparr>\<rparr>) in
      case calibrate_rounds e [0..<N_ITER] [] st0 of
        Inl err \<Rightarrow> Inl err
      | Inr (summ, st1) \<Rightarrow>
          (let st2 = st1\<lparr>meas_calls := Suc (meas_calls st1)\<rparr> in
           case meas_get_samples e (meas_calls st1) of
             Inl x \<Rightarrow> Inl (x, st2)
           | Inr m \<Rightarrow> publish_calibration e m summ st2))"

text \<open>
  The \<open>while True\<close> loop over the commands the queue delivers, in order. The loop is left
  by \<open>break\<close> on \<open>"quit"\<close> or by an exception; when the queue never delivers another
  command, \<open>command_queue.get()\<close> does not return and the loop is not left
  (\<open>StillWaiting\<close>).
\<close>

datatype loop_exit = Break | Raised exn | StillWaiting

fun worker_loop :: "env \<Rightarrow> string list \<Rightarrow> wstate \<Rightarrow> loop_exit \<times> wstate" where
  "worker_loop e [] st = (StillWaiting, st)"
| "worker_loop e (cmd # cmds) st =
     (if cmd = ''quit'' then (Break, st)
      else if cmd = ''calibrate'' then
        (case calibrate e st of
           Inl (x, st') \<Rightarrow> (Raised x, st')
         | Inr st' \<Rightarrow> worker_loop e cmds st')
      else worker_loop e cmds st)"

text \<open>The \<open>finally\<close> block (lines 185-188).\<close>

definition finalizer :: "wstate \<Rightarrow> wstate" where
  "finalizer st =
     release (st\<lparr>results := (results st)\<lparr>state := ''Terminated'', stateprogress := 0\<rparr>\<rparr>)"

text \<open>\<open>engine_worker\<close>: the loop inside \<open>try\<close>, the finalizer once the loop is left.\<close>

definition engine_worker :: "env \<Rightarrow> string list \<Rightarrow> wstate \<Rightarrow> loop_exit \<times> wstate" where
  "engine_worker e cmds st =
     (case worker_loop e cmds st of
        (StillWaiting, st') \<Rightarrow> (StillWaiting, st')
      | (ex, st') \<Rightarrow> (ex, finalizer st'))"

text \<open>The state the worker thread starts in, for given settings.\<close>

definition initial_wstate :: "settings_dict \<Rightarrow> wstate" where
  "initial_wstate s =
     \<lparr>settings = s, results = initial_results, snapshots = [],
      agc_calls = 0, meas_calls = 0, rxgain_calls = 0, dgain_calls = 0\<rparr>"

section \<open>Request dispatch (dpdce.py, lines 210-230)\<close>

text \<open>
  A request as \<open>cmd_socket.receive_request()\<close> returns it: \<open>(addr, msg_id, method, params)\<close>.
  What the dispatch does for it is a list of actions, in order: a log line, a
  \<open>command_queue.put\<close>, a response sent on the socket.
\<close>

type_synonym addr = "string \<times> nat"

record request =
  req_addr :: addr
  req_msg_id :: nat
  req_method :: string
  req_params :: "(string \<times> string) list"

datatype payload = Settings settings_dict | Results results_dict

datatype action =
    LogRequest string "(string \<times> string) list option"
  | QueuePut string
  | SendSuccess addr nat payload
  | SendError addr nat string

definition dispatch :: "request \<Rightarrow> settings_dict \<Rightarrow> results_dict \<Rightarrow> action list" where
  "dispatch rq s r =
     (let method = req_method rq in
      if method = ''trigger_run'' then [LogRequest method None, QueuePut ''trigger_run'']
      else if method = ''reset'' then [LogRequest method None, QueuePut ''reset'']
      else if method = ''set_setting'' then [LogRequest method (Some (req_params rq))]
      else if method = ''get_settings'' then [SendSuccess (req_addr rq) (req_msg_id rq) (Settings s)]
      else if method = ''get_results'' then [SendSuccess (req_addr rq) (req_msg_id rq) (Results r)]
      else if method = ''calibrate'' then [LogRequest method None, QueuePut ''calibrate'']
      else [SendError (req_addr rq) (req_msg_id rq) ''request not understood''])"

section \<open>The adaptation cycle (dpdce.py, lines 263-354)\<close>

text \<open>
  A module-level variable that receives an array or \<open>None\<close>, and is not bound before its
  first assignment (\<open>tx\<close>, \<open>rx\<close>, \<open>phase_diff\<close>).
\<close>

datatype var = Unbound | Bound "real list option"

text \<open>The values lines 311-322 compute for the log record.\<close>

record logging_data =
  off :: nat
  tx_mer :: real
  rx_mer :: real
  mse :: real
  log_tx_gain :: real
  log_rx_gain :: real
  log_digital_gain :: real
  log_tx_median :: real
  rx_shoulder_tuple :: "real \<times> real \<times> real"
  tx_shoulder_tuple :: "real \<times> real \<times> real"
  lr :: real

text \<open>What the cycle logs, and its calls of \<open>model.train\<close>: a call is recorded with the
  iteration index and the value of \<open>extStat.n_meas\<close> at the moment of the call, and the
  learning rate passed.\<close>

datatype event =
    LogError string
  | LogTraceback exn
  | LogIteration nat logging_data real "int option"
  | LogCoefs nat string "real list"
  | LogLut nat real "real list"
  | Train nat int real

text \<open>
  The collaborators of the cycle. No statement of the loop body runs twice in one pass of
  the \<open>while\<close> loop, so each call is given by the number of the pass it is made in.
  \<open>extract_in\<close> gives what \<open>extStat.extract\<close> does and the value of \<open>extStat.n_meas\<close>
  afterwards; \<open>fresh_n_meas\<close> is \<open>n_meas\<close> of a new \<open>ExtractStatistic(c)\<close>;
  \<open>logging_data_in\<close> stands for the calls of lines 311-322, from \<open>calc_offset\<close> to
  \<open>get_learning_rate\<close>, which raise or produce the values to log.
  \<open>Heuristics.get_n_meas\<close> is a function of the iteration index.
\<close>

record cenv =
  get_samples_in :: "nat \<Rightarrow> exn + measurement"
  extract_in :: "nat \<Rightarrow> complex list \<Rightarrow> complex list \<Rightarrow>
                   (exn + (real list option \<times> real list option \<times> real list option)) \<times> int"
  get_n_meas :: "nat \<Rightarrow> int"
  get_learning_rate :: "nat \<Rightarrow> real"
  train_in :: "nat \<Rightarrow> exn option"
  get_dpd_data_in :: "nat \<Rightarrow> exn + dpddata"
  fresh_n_meas :: int
  set_predistorter_in :: "nat \<Rightarrow> dpddata \<Rightarrow> exn option"
  dump_in :: "nat \<Rightarrow> exn option"
  logging_data_in :: "nat \<Rightarrow> measurement \<Rightarrow> exn + logging_data"

text \<open>The variables of the loop: \<open>state\<close>, \<open>i\<close>, \<open>n_meas\<close>, \<open>tx\<close>, \<open>rx\<close>, \<open>phase_diff\<close>,
  \<open>dpddata\<close>, the accumulator's count, the passes made so far and the events so far.\<close>

record cycle =
  v_state :: string
  v_i :: nat
  v_n_meas :: "int option"
  v_tx :: var
  v_rx :: var
  v_phase_diff :: var
  v_dpddata :: dpddata
  extStat_n_meas :: int
  passes :: nat
  events :: "event list"

definition num_iter :: nat where
  "num_iter = 10"

text \<open>Lines 263-266, with the accumulator of line 104.\<close>

definition initial_cycle :: "cenv \<Rightarrow> dpddata \<Rightarrow> cycle" where
  "initial_cycle env d =
     \<lparr>v_state = ''report'', v_i = 0, v_n_meas = None,
      v_tx = Unbound, v_rx = Unbound, v_phase_diff = Unbound,
      v_dpddata = d, extStat_n_meas = fresh_n_meas env, passes = 0, events = []\<rparr>"

text \<open>
  Each branch gives the exception that escapes it, if any, and the variables as they are
  at that point. The branch \<open>state == 'measure'\<close> (lines 270-282):
\<close>

definition measure_body :: "cenv \<Rightarrow> cycle \<Rightarrow> exn option \<times> cycle" where
  "measure_body env s =
     (case get_samples_in env (passes s) of
        Inl x \<Rightarrow> (Some x, s)
      | Inr m \<Rightarrow>
          (case extract_in env (passes s) (txframe_aligned m) (rxframe_aligned m) of
             (out, cnt) \<Rightarrow>
               (let s1 = s\<lparr>extStat_n_meas := cnt\<rparr> in
                case out of
                  Inl x \<Rightarrow> (Some x, s1)
                | Inr (tx, rx, phase_diff) \<Rightarrow>
                    (let s2 = s1\<lparr>v_tx := Bound tx, v_rx := Bound rx,
                                   v_phase_diff := Bound phase_diff,
                                   v_n_meas := Some (get_n_meas env (v_i s1))\<rparr> in
                     (None, s2\<lparr>v_state := (if get_n_meas env (v_i s2) \<le> extStat_n_meas s2
                                             then ''model'' else ''measure'')\<rparr>)))))"

text \<open>
  The branch \<open>state == 'model'\<close> (lines 285-295). Reading an unbound variable raises
  \<open>NameError\<close>; with \<open>None\<close> among the three values the branch logs an error, sets
  \<open>state = 'measure'\<close> and continues with the next pass.
\<close>

definition model_body :: "cenv \<Rightarrow> cycle \<Rightarrow> exn option \<times> cycle" where
  "model_body env s =
     (case (v_tx s, v_rx s, v_phase_diff s) of
        (Bound tx, Bound rx, Bound phase_diff) \<Rightarrow>
          if tx = None \<or> rx = None \<or> phase_diff = None then
            (None, s\<lparr>events := events s @ [LogError ''No data to calculate model''],
                     v_state := ''measure''\<rparr>)
          else
            (let s1 = s\<lparr>events := events s @
                          [Train (v_i s) (extStat_n_meas s) (get_learning_rate env (v_i s))]\<rparr> in
             case train_in env (passes s) of
               Some x \<Rightarrow> (Some x, s1)
             | None \<Rightarrow>
                 (case get_dpd_data_in env (passes s) of
                    Inl x \<Rightarrow> (Some x, s1)
                  | Inr d \<Rightarrow>
                      (None, s1\<lparr>v_dpddata := d, extStat_n_meas := fresh_n_meas env,
                                 v_state := ''adapt''\<rparr>)))
      | _ \<Rightarrow> (Some (Exception ''NameError''), s))"

text \<open>The branch \<open>state == 'adapt'\<close> (lines 298-300).\<close>

definition adapt_body :: "cenv \<Rightarrow> cycle \<Rightarrow> exn option \<times> cycle" where
  "adapt_body env s =
     (case set_predistorter_in env (passes s) (v_dpddata s) of
        Some x \<Rightarrow> (Some x, s)
      | None \<Rightarrow> (None, s\<lparr>v_state := ''report''\<rparr>))"

text \<open>The model specific logging (lines 332-343).\<close>

fun model_logging :: "nat \<Rightarrow> dpddata \<Rightarrow> event list" where
  "model_logging i (Poly coefs_am coefs_pm) =
     [LogCoefs i ''coefs_am'' coefs_am, LogCoefs i ''coefs_pm'' coefs_pm]"
| "model_logging i (Lut scalefactor lut) = [LogLut i scalefactor lut]"

text \<open>The body of the inner \<open>try\<close> of the branch \<open>state == 'report'\<close> (lines 305-343):
  the exception that escapes it, if any, and what it has logged.\<close>

definition report_try :: "cenv \<Rightarrow> cycle \<Rightarrow> exn option \<times> event list" where
  "report_try env s =
     (case get_samples_in env (passes s) of
        Inl x \<Rightarrow> (Some x, [])
      | Inr m \<Rightarrow>
          (case dump_in env (passes s) of
             Some x \<Rightarrow> (Some x, [])
           | None \<Rightarrow>
               (case logging_data_in env (passes s) m of
                  Inl x \<Rightarrow> (Some x, [])
                | Inr d \<Rightarrow>
                    (None, LogIteration (v_i s) d (meas_rx_median m) (v_n_meas s) #
                           model_logging (v_i s) (v_dpddata s)))))"

text \<open>The branch \<open>state == 'report'\<close> with its \<open>except:\<close> (lines 303-348).\<close>

definition report_body :: "cenv \<Rightarrow> cycle \<Rightarrow> exn option \<times> cycle" where
  "report_body env s =
     (case report_try env s of
        (r, logged) \<Rightarrow>
          (let handler = (case r of
                            None \<Rightarrow> []
                          | Some x \<Rightarrow>
                              [LogError (''Iteration '' @ str_nat (v_i s) @ '': Report failed.''),
                               LogTraceback x]) in
           (None, s\<lparr>events := events s @ logged @ handler,
                    v_i := v_i s + 1, v_state := ''measure''\<rparr>)))"

text \<open>One pass of the body of \<open>while i < num_iter\<close>, with the outer \<open>except:\<close>
  (lines 268-354).\<close>

definition cycle_pass :: "cenv \<Rightarrow> cycle \<Rightarrow> cycle" where
  "cycle_pass env s =
     (case (if v_state s = ''measure'' then measure_body env s
            else if v_state s = ''model'' then model_body env s
            else if v_state s = ''adapt'' then adapt_body env s
            else if v_state s = ''report'' then report_body env s
            else (None, s)) of
        (None, s') \<Rightarrow> s'\<lparr>passes := Suc (passes s)\<rparr>
      | (Some x, s') \<Rightarrow>
          s'\<lparr>events := events s' @
                [LogError (''Iteration '' @ str_nat (v_i s') @ '' failed.''), LogTraceback x],
             v_i := v_i s' + 1, v_state := ''measure'', passes := Suc (passes s)\<rparr>)"

text \<open>The loop, for at most \<open>n\<close> passes: nothing bounds the number of passes a run of
  the loop makes, since \<open>i\<close> does not advance while the cycle measures.\<close>

fun cycle_run :: "cenv \<Rightarrow> nat \<Rightarrow> cycle \<Rightarrow> cycle" where
  "cycle_run env 0 s = s"
| "cycle_run env (Suc n) s = (if v_i s < num_iter then cycle_run env n (cycle_pass env s) else s)"

section \<open>Auxiliary notions for stating properties\<close>

text \<open>The \<open>n\<close>-th call of \<open>agc.run()\<close> returns, and reports success.\<close>

definition agc_ok :: "env \<Rightarrow> nat \<Rightarrow> bool" where
  "agc_ok e n = (case agc_run e n of Inr (b, t) \<Rightarrow> b | Inl x \<Rightarrow> False)"

text \<open>\<open>results\<close> after the first \<open>with lock:\<close> block of a calibration (lines 158-160).\<close>

definition calibrating :: "results_dict \<Rightarrow> results_dict" where
  "calibrating r = r\<lparr>state := ''RX Gain Calibration'', stateprogress := 0\<rparr>"

text \<open>The worker's state after \<open>r\<close> rounds that all returned, the first of them round \<open>i\<close>.\<close>

definition after_rounds :: "nat \<Rightarrow> nat \<Rightarrow> wstate \<Rightarrow> wstate" where
  "after_rounds i r st =
     st\<lparr>agc_calls := agc_calls st + r,
        results := (results st)\<lparr>stateprogress := progress_of (i + r - 1)\<rparr>,
        snapshots := snapshots st @
          map (\<lambda>j. (results st)\<lparr>stateprogress := progress_of j\<rparr>) [i..<i + r]\<rparr>"

text \<open>\<open>results['summary'][0]\<close> once a calibration has returned.\<close>

definition first_summary_line :: "(exn \<times> wstate) + wstate \<Rightarrow> string option" where
  "first_summary_line r =
     (case r of
        Inl x \<Rightarrow> None
      | Inr st \<Rightarrow> (case summary (results st) of [] \<Rightarrow> None | l # ls \<Rightarrow> Some l))"

text \<open>\<open>results['summary']\<close> as a reader finds it after a round of the loop.\<close>

definition published_summary :: "(exn \<times> wstate) + ('a \<times> wstate) \<Rightarrow> string list option" where
  "published_summary r =
     (case r of Inl x \<Rightarrow> None | Inr (v, st) \<Rightarrow> Some (summary (results st)))"

text \<open>
  The progress values readers can see, in the order they were published. A run is in
  progress while \<open>state\<close> is \<open>'RX Gain Calibration'\<close>. The trace is in order when every
  value lies in \<open>[0, 100]\<close>; two values published one after the other while a run is in
  progress do not decrease; the first value of a run (the one published when the state
  before was not that of a run in progress) is 0; and every value published with state
  \<open>'Idle'\<close> is 0.
\<close>

definition in_run :: "results_dict \<Rightarrow> bool" where
  "in_run r = (state r = ''RX Gain Calibration'')"

definition progress_trace_ok :: "results_dict list \<Rightarrow> bool" where
  "progress_trace_ok tr =
     ((\<forall>n<length tr. 0 \<le> stateprogress (tr ! n) \<and> stateprogress (tr ! n) \<le> 100) \<and>
      (\<forall>n<length tr. Suc n < length tr \<and> in_run (tr ! n) \<and> in_run (tr ! Suc n) \<longrightarrow>
         stateprogress (tr ! n) \<le> stateprogress (tr ! Suc n)) \<and>
      (\<forall>n<length tr. in_run (tr ! n) \<and> (n = 0 \<or> \<not> in_run (tr ! (n - 1))) \<longrightarrow>
         stateprogress (tr ! n) = 0) \<and>
      (\<forall>n<length tr. state (tr ! n) = ''Idle'' \<longrightarrow> stateprogress (tr ! n) = 0))"

text \<open>Invariants of the worker: inside a calibration, and between two commands.\<close>

definition running_inv :: "wstate \<Rightarrow> bool" where
  "running_inv st =
     (snapshots st \<noteq> [] \<and> last (snapshots st) = results st \<and> in_run (results st) \<and>
      progress_trace_ok (snapshots st))"

definition idle_inv :: "wstate \<Rightarrow> bool" where
  "idle_inv st =
     (progress_trace_ok (snapshots st) \<and>
      (snapshots st = [] \<or> \<not> in_run (last (snapshots st))))"

text \<open>The known method names, and the responses among the actions of a dispatch.\<close>

definition known_methods :: "string list" where
  "known_methods =
     [''trigger_run'', ''reset'', ''set_setting'', ''get_settings'', ''get_results'', ''calibrate'']"

fun is_error :: "action \<Rightarrow> bool" where
  "is_error (SendError a n t) = True"
| "is_error other = False"

fun is_response :: "action \<Rightarrow> bool" where
  "is_response (SendError a n t) = True"
| "is_response (SendSuccess a n p) = True"
| "is_response other = False"

fun error_text :: "action \<Rightarrow> string" where
  "error_text (SendError a n t) = t"
| "error_text other = []"

text \<open>A recorded call of \<open>model.train\<close> was made with at least the required count.\<close>

fun train_respects :: "cenv \<Rightarrow> event \<Rightarrow> bool" where
  "train_respects env (Train i c l) = (get_n_meas env i \<le> c)"
| "train_respects env other = True"

fun is_train :: "event \<Rightarrow> bool" where
  "is_train (Train i c l) = True"
| "is_train other = False"

text \<open>The invariant of the cycle: \<open>state\<close> is \<open>'model'\<close> only with enough captures.\<close>

definition cycle_inv :: "cenv \<Rightarrow> cycle \<Rightarrow> bool" where
  "cycle_inv env s =
     ((v_state s = ''model'' \<longrightarrow> get_n_meas env (v_i s) \<le> extStat_n_meas s) \<and>
      list_all (train_respects env) (events s))"

subsection \<open>Test doubles\<close>

text \<open>An AGC that fails on its call number \<open>k\<close> (counted from 0) and succeeds on every
  other call, with a capture and an adapter that always answer.\<close>

definition stub_measurement :: measurement where
  "stub_measurement =
     \<lparr>txframe_aligned = [], tx_ts = 0, rxframe_aligned = [], rx_ts = 0,
      meas_rx_median = 2, meas_tx_median = 3\<rparr>"

definition agc_stub :: "nat \<Rightarrow> env" where
  "agc_stub k =
     \<lparr>agc_run = (\<lambda>n. if n = k then Inr (False, ''RX gain too low'') else Inr (True, ''ok'')),
      meas_get_samples = (\<lambda>n. Inr stub_measurement),
      adapt_get_rxgain = (\<lambda>n. Inr 30),
      adapt_get_digital_gain = (\<lambda>n. Inr (1 / 2))\<rparr>"

text \<open>An AGC whose first call raises.\<close>

definition agc_broken :: env where
  "agc_broken = (agc_stub 0)\<lparr>agc_run := (\<lambda>n. Inl (Exception ''no samples''))\<rparr>"

definition startup_settings :: settings_dict where
  "startup_settings = \<lparr>rx_gain = 0, tx_gain = 60, digital_gain = 1, dpddata = Poly [1] [0]\<rparr>"

text \<open>Collaborators of the cycle: the accumulator's count is the number of the pass, two
  captures are required, the accumulator has no data before pass 3, and the capture of
  pass \<open>bad\<close> raises.\<close>

definition stub_logging_data :: logging_data where
  "stub_logging_data =
     \<lparr>off = 0, tx_mer = 30, rx_mer = 25, mse = 0, log_tx_gain = 60, log_rx_gain = 30,
      log_digital_gain = 1 / 2, log_tx_median = 3, rx_shoulder_tuple = (0, 0, 0),
      tx_shoulder_tuple = (0, 0, 0), lr = 1\<rparr>"

definition cycle_stub :: "nat \<Rightarrow> cenv" where
  "cycle_stub bad =
     \<lparr>get_samples_in = (\<lambda>p. if p = bad then Inl (Exception ''capture failed'') else Inr stub_measurement),
      extract_in = (\<lambda>p tx rx. (Inr (if p < 3 then (None, None, None)
                                          else (Some [1], Some [1], Some [0])), int p)),
      get_n_meas = (\<lambda>i. 2),
      get_learning_rate = (\<lambda>i. 1),
      train_in = (\<lambda>p. None),
      get_dpd_data_in = (\<lambda>p. Inr (Poly [1] [0])),
      fresh_n_meas = 0,
      set_predistorter_in = (\<lambda>p d. None),
      dump_in = (\<lambda>p. None),
      logging_data_in = (\<lambda>p m. Inr stub_logging_data)\<rparr>"

definition stub_request :: "string \<Rightarrow> request" where
  "stub_request m = \<lparr>req_addr = (''127.0.0.1'', 50055), req_msg_id = 7, req_method = m, req_params = []\<rparr>"

section \<open>The calibration loop\<close>

lemma agc_round_returns:
  "agc_run e (agc_calls st) = Inr (b, msg) \<Longrightarrow>
   agc_round e i st = Inr ((b, run_header i # py_split newline msg), after_rounds i 1 st)"
  by (simp add: agc_round_def after_rounds_def release_def)

lemma after_rounds_Suc:
  "0 < r \<Longrightarrow> after_rounds (Suc i) r (after_rounds i 1 st) = after_rounds i (Suc r) st"
  by (cases r) (simp_all add: after_rounds_def upt_conv_Cons del: upt_Suc)

text \<open>The loop runs \<open>k + 1\<close> rounds when the first \<open>k\<close> succeed and round \<open>k\<close> returns
  failure or is the last of the range.\<close>

lemma calibrate_rounds_stop:
  "\<forall>j<k. agc_ok e (agc_calls st + j) \<Longrightarrow> agc_run e (agc_calls st + k) = Inr (b, msg) \<Longrightarrow>
   k < m \<Longrightarrow> \<not> b \<or> Suc k = m \<Longrightarrow>
   calibrate_rounds e [i..<i + m] summ st =
     Inr (run_header (i + k) # py_split newline msg, after_rounds i (Suc k) st)"
proof (induction k arbitrary: i m summ st)
  case 0
  note p = this
  have "[i..<i + m] = i # [Suc i..<i + m]" using p by (simp add: upt_conv_Cons)
  then show ?case using p agc_round_returns [of e st b msg i] by auto
next
  case (Suc k)
  obtain m' where m: "m = Suc m'" using Suc.prems(3) by (cases m) auto
  have ok0: "agc_ok e (agc_calls st)" using Suc.prems(1) by force
  then obtain t0 where r0: "agc_run e (agc_calls st) = Inr (True, t0)"
    by (auto simp: agc_ok_def split: sum.splits prod.splits)
  let ?st1 = "after_rounds i 1 st"
  have c1: "agc_calls ?st1 = Suc (agc_calls st)" by (simp add: after_rounds_def)
  have a: "\<forall>j<k. agc_ok e (agc_calls ?st1 + j)" using Suc.prems(1) c1 by auto
  have b: "agc_run e (agc_calls ?st1 + k) = Inr (b, msg)" using Suc.prems(2) c1 by simp
  have ih: "calibrate_rounds e [Suc i..<Suc i + m'] (run_header i # py_split newline t0) ?st1 =
     Inr (run_header (Suc i + k) # py_split newline msg, after_rounds (Suc i) (Suc k) ?st1)"
    using Suc.IH [OF a b, of m' "Suc i"] Suc.prems(3,4) m by auto
  have "[i..<i + m] = i # [Suc i..<Suc i + m']" using m by (simp add: upt_conv_Cons)
  then show ?case using ih agc_round_returns [OF r0, of i] after_rounds_Suc [of "Suc k" i st]
    by simp
qed

text \<open>The whole \<open>calibrate\<close> branch when no collaborator raises: every field of the
  worker's state afterwards.\<close>

lemma calibrate_returns:
  assumes ok: "\<forall>j<k. agc_ok e (agc_calls st + j)"
    and last: "agc_run e (agc_calls st + k) = Inr (b, msg)"
    and k: "k < N_ITER" and stop: "\<not> b \<or> Suc k = N_ITER"
    and m: "meas_get_samples e (meas_calls st) = Inr m"
    and g: "adapt_get_rxgain e (rxgain_calls st) = Inr g"
    and d: "adapt_get_digital_gain e (dgain_calls st) = Inr d"
  shows "calibrate e st = Inr
     \<lparr>settings = (settings st)\<lparr>rx_gain := g, digital_gain := d\<rparr>,
      results = (results st)\<lparr>tx_median := meas_tx_median m, rx_median := meas_rx_median m,
                  state := ''Idle'', stateprogress := 0,
                  summary := ''Calibration was done:'' # run_header k # py_split newline msg\<rparr>,
      snapshots = snapshots st @ calibrating (results st) #
                  map (\<lambda>j. (calibrating (results st))\<lparr>stateprogress := progress_of j\<rparr>) [0..<Suc k] @
                  [(results st)\<lparr>tx_median := meas_tx_median m, rx_median := meas_rx_median m,
                     state := ''Idle'', stateprogress := 0,
                     summary := ''Calibration was done:'' # run_header k # py_split newline msg\<rparr>],
      agc_calls = agc_calls st + Suc k,
      meas_calls = Suc (meas_calls st),
      rxgain_calls = Suc (rxgain_calls st),
      dgain_calls = Suc (dgain_calls st)\<rparr>"
proof -
  let ?st0 = "release (st\<lparr>results := calibrating (results st)\<rparr>)"
  have c0: "agc_calls ?st0 = agc_calls st" by (simp add: release_def)
  have rounds: "calibrate_rounds e [0..<0 + N_ITER] [] ?st0 =
      Inr (run_header (0 + k) # py_split newline msg, after_rounds 0 (Suc k) ?st0)"
    using calibrate_rounds_stop [of k e ?st0 b msg N_ITER 0 "[]"] ok last k stop c0 by simp
  show ?thesis
    using rounds m g d
    by (simp add: calibrate_def publish_calibration_def calibrating_def after_rounds_def release_def
        del: upt_Suc)
qed

lemma quit_leaves_loop: "''quit'' \<in> set cmds \<Longrightarrow> fst (worker_loop e cmds st) \<noteq> StillWaiting"
  by (induction cmds arbitrary: st) (auto split: sum.splits prod.splits)

lemma progress_of_round: "progress_of i = round (100 * real (i + 1) / real N_ITER)"
proof -
  have "100 * real (i + 1) / real N_ITER = real_of_int (int (20 * (i + 1)))"
    by (simp add: N_ITER_def)
  then have "round (100 * real (i + 1) / real N_ITER) = int (20 * (i + 1))"
    by (simp only: round_of_int)
  moreover have "progress_of i = int (20 * (i + 1))"
    by (simp add: progress_of_def N_ITER_def)
  ultimately show ?thesis by simp
qed

subsection \<open>The trace of published progress values\<close>

lemma nth_snoc_last:
  "Suc n = length tr \<Longrightarrow> (tr @ [r]) ! n = last tr \<and> (tr @ [r]) ! Suc n = r \<and> tr \<noteq> []"
proof -
  assume n: "Suc n = length tr"
  then have ne: "tr \<noteq> []" by auto
  have "length tr - 1 = n" using n by simp
  then have "last tr = tr ! n" using ne by (simp add: last_conv_nth)
  then show ?thesis using n ne by (simp add: nth_append)
qed

lemma nth_snoc_before:
  "n < length tr \<Longrightarrow> (tr @ [r]) ! n = tr ! n \<and> (tr @ [r]) ! (n - 1) = tr ! (n - 1)"
proof -
  assume n: "n < length tr"
  then have "n - 1 < length tr" by simp
  then show ?thesis using n by (simp add: nth_append)
qed

lemma nth_snoc_new:
  "tr \<noteq> [] \<Longrightarrow> (tr @ [r]) ! (length tr) = r \<and> (tr @ [r]) ! (length tr - 1) = last tr"
  by (simp add: nth_append last_conv_nth)

lemma trace_ok_Nil: "progress_trace_ok []"
  by (simp add: progress_trace_ok_def)

lemma trace_ok_snoc_run:
  assumes "progress_trace_ok tr" "tr \<noteq> []" "in_run (last tr)" "in_run r"
    "stateprogress (last tr) \<le> stateprogress r" "stateprogress r \<le> 100"
  shows "progress_trace_ok (tr @ [r])"
proof -
  have l: "last tr = tr ! (length tr - 1)" using assms(2) by (simp add: last_conv_nth)
  have lt: "length tr - 1 < length tr" using assms(2) by simp
  have nonneg: "0 \<le> stateprogress r"
    using assms(1,5) l lt unfolding progress_trace_ok_def by force
  have idle: "state r \<noteq> ''Idle''" using assms(4) by (simp add: in_run_def)
  show ?thesis
    unfolding progress_trace_ok_def
  proof (intro conjI allI impI)
    fix n assume "n < length (tr @ [r])"
    then show "0 \<le> stateprogress ((tr @ [r]) ! n)"
      using assms(1) nonneg unfolding progress_trace_ok_def by (auto simp: nth_append)
  next
    fix n assume "n < length (tr @ [r])"
    then show "stateprogress ((tr @ [r]) ! n) \<le> 100"
      using assms(1,6) unfolding progress_trace_ok_def by (auto simp: nth_append)
  next
    fix n assume "n < length (tr @ [r])"
      and "Suc n < length (tr @ [r]) \<and> in_run ((tr @ [r]) ! n) \<and> in_run ((tr @ [r]) ! Suc n)"
    then show "stateprogress ((tr @ [r]) ! n) \<le> stateprogress ((tr @ [r]) ! Suc n)"
      using assms(1,5) nth_snoc_last [of n tr r] unfolding progress_trace_ok_def
      by (cases "Suc n < length tr") (auto simp: nth_append)
  next
    fix n assume "n < length (tr @ [r])"
      and "in_run ((tr @ [r]) ! n) \<and> (n = 0 \<or> \<not> in_run ((tr @ [r]) ! (n - 1)))"
    then show "stateprogress ((tr @ [r]) ! n) = 0"
    proof (cases "n < length tr")
      case True
      assume "in_run ((tr @ [r]) ! n) \<and> (n = 0 \<or> \<not> in_run ((tr @ [r]) ! (n - 1)))"
      then show ?thesis
        using True assms(1) nth_snoc_before [OF True, of r] unfolding progress_trace_ok_def
        by auto
    next
      case False
      assume "n < length (tr @ [r])"
        and h: "in_run ((tr @ [r]) ! n) \<and> (n = 0 \<or> \<not> in_run ((tr @ [r]) ! (n - 1)))"
      then have n: "n = length tr" using False by simp
      have "n \<noteq> 0" using n assms(2) by simp
      then show ?thesis using h n nth_snoc_new [OF assms(2), of r] assms(3) by simp
    qed
  next
    fix n assume "n < length (tr @ [r])" and "state ((tr @ [r]) ! n) = ''Idle''"
    then show "stateprogress ((tr @ [r]) ! n) = 0"
      using assms(1) idle unfolding progress_trace_ok_def
      by (cases "n < length tr") (auto simp: nth_append)
  qed
qed

lemma trace_ok_snoc_zero:
  assumes "progress_trace_ok tr" "stateprogress r = 0"
    "in_run r \<longrightarrow> tr = [] \<or> \<not> in_run (last tr)"
  shows "progress_trace_ok (tr @ [r])"
proof -
  have l: "tr \<noteq> [] \<Longrightarrow> last tr = tr ! (length tr - 1)" by (simp add: last_conv_nth)
  show ?thesis
    unfolding progress_trace_ok_def
  proof (intro conjI allI impI)
    fix n assume "n < length (tr @ [r])"
    then show "0 \<le> stateprogress ((tr @ [r]) ! n)"
      using assms(1,2) unfolding progress_trace_ok_def by (auto simp: nth_append)
  next
    fix n assume "n < length (tr @ [r])"
    then show "stateprogress ((tr @ [r]) ! n) \<le> 100"
      using assms(1,2) unfolding progress_trace_ok_def by (auto simp: nth_append)
  next
    fix n assume "n < length (tr @ [r])"
      and "Suc n < length (tr @ [r]) \<and> in_run ((tr @ [r]) ! n) \<and> in_run ((tr @ [r]) ! Suc n)"
    then show "stateprogress ((tr @ [r]) ! n) \<le> stateprogress ((tr @ [r]) ! Suc n)"
      using assms(1,3) nth_snoc_last [of n tr r] unfolding progress_trace_ok_def
      by (cases "Suc n < length tr") (auto simp: nth_append)
  next
    fix n assume "n < length (tr @ [r])"
      and "in_run ((tr @ [r]) ! n) \<and> (n = 0 \<or> \<not> in_run ((tr @ [r]) ! (n - 1)))"
    then show "stateprogress ((tr @ [r]) ! n) = 0"
    proof (cases "n < length tr")
      case True
      assume "in_run ((tr @ [r]) ! n) \<and> (n = 0 \<or> \<not> in_run ((tr @ [r]) ! (n - 1)))"
      then show ?thesis
        using True assms(1) nth_snoc_before [OF True, of r] unfolding progress_trace_ok_def
        by auto
    next
      case False
      assume "n < length (tr @ [r])"
      then have "n = length tr" using False by simp
      then show ?thesis using assms(2) by simp
    qed
  next
    fix n assume "n < length (tr @ [r])" and "state ((tr @ [r]) ! n) = ''Idle''"
    then show "stateprogress ((tr @ [r]) ! n) = 0"
      using assms(1,2) unfolding progress_trace_ok_def
      by (cases "n < length tr") (auto simp: nth_append)
  qed
qed


lemma progress_of_le_100: "i < N_ITER \<Longrightarrow> progress_of i \<le> 100"
  by (simp add: progress_of_def N_ITER_def)

lemma progress_of_mono: "progress_of i \<le> progress_of (Suc i)"
  by (simp add: progress_of_def N_ITER_def)

lemma running_last_le_100: "running_inv st \<Longrightarrow> stateprogress (results st) \<le> 100"
proof -
  assume r: "running_inv st"
  then have ne: "snapshots st \<noteq> []" and l: "last (snapshots st) = results st"
    and ok: "progress_trace_ok (snapshots st)"
    by (simp_all add: running_inv_def)
  have "length (snapshots st) - 1 < length (snapshots st)" using ne by simp
  then have "stateprogress (snapshots st ! (length (snapshots st) - 1)) \<le> 100"
    using ok unfolding progress_trace_ok_def by blast
  then show ?thesis using l ne by (simp add: last_conv_nth)
qed

lemma running_publish:
  assumes "running_inv st" "snapshots st' = snapshots st @ [results st']"
    "state (results st') = state (results st)"
    "stateprogress (results st) \<le> stateprogress (results st')"
    "stateprogress (results st') \<le> 100"
  shows "running_inv st'"
proof -
  have "in_run (results st')" using assms(1,3) by (simp add: running_inv_def in_run_def)
  moreover have "progress_trace_ok (snapshots st @ [results st'])"
    using trace_ok_snoc_run [of "snapshots st" "results st'"] assms calculation
    by (simp add: running_inv_def)
  ultimately show ?thesis using assms(2) by (simp add: running_inv_def)
qed

lemma running_frame:
  "running_inv st \<Longrightarrow> snapshots st' = snapshots st \<Longrightarrow> results st' = results st \<Longrightarrow>
   running_inv st'"
  by (simp add: running_inv_def)

lemma agc_round_inv:
  assumes "running_inv st" "stateprogress (results st) \<le> progress_of i" "i < N_ITER"
  shows "case agc_round e i st of
           Inl (x, st') \<Rightarrow> running_inv st'
         | Inr (v, st') \<Rightarrow> running_inv st' \<and> stateprogress (results st') = progress_of i"
proof (cases "agc_run e (agc_calls st)")
  case (Inl x)
  then show ?thesis
    using running_frame [OF assms(1), of "st\<lparr>agc_calls := Suc (agc_calls st)\<rparr>"]
    by (simp add: agc_round_def)
next
  case (Inr v)
  obtain b msg where v: "v = (b, msg)" by (cases v)
  let ?st' = "release (st\<lparr>agc_calls := Suc (agc_calls st),
                 results := (results st)\<lparr>stateprogress := progress_of i\<rparr>\<rparr>)"
  have "running_inv ?st'"
    using running_publish [OF assms(1), of ?st'] assms(2) progress_of_le_100 [OF assms(3)]
    by (simp add: release_def)
  then show ?thesis using Inr v by (simp add: agc_round_def release_def)
qed

lemma calibrate_rounds_inv:
  "running_inv st \<Longrightarrow> stateprogress (results st) \<le> progress_of i \<Longrightarrow> n \<le> N_ITER \<Longrightarrow>
   (case calibrate_rounds e [i..<n] summ st of
      Inl (x, st') \<Rightarrow> running_inv st'
    | Inr (s, st') \<Rightarrow> running_inv st')"
proof (induction "n - i" arbitrary: i summ st)
  case 0
  then show ?case by simp
next
  case (Suc d)
  then have lt: "i < n" by simp
  then have up: "[i..<n] = i # [Suc i..<n]" by (simp add: upt_conv_Cons)
  have iN: "i < N_ITER" using lt Suc.prems(3) by simp
  note round = agc_round_inv [OF Suc.prems(1,2) iN, of e]
  show ?case
  proof (cases "agc_round e i st")
    case (Inl a)
    then show ?thesis using round up by (simp split: prod.splits)
  next
    case (Inr a)
    obtain b summ' st' where a: "a = ((b, summ'), st')" by (cases a) auto
    have r: "running_inv st'" and p: "stateprogress (results st') = progress_of i"
      using round Inr a by simp_all
    have le: "stateprogress (results st') \<le> progress_of (Suc i)"
      using p progress_of_mono [of i] by simp
    have d: "d = n - Suc i" using Suc.hyps(2) by simp
    show ?thesis
      using Suc.hyps(1) [OF d r le Suc.prems(3), of summ'] Inr a r up by simp
  qed
qed


lemma running_release_same:
  fixes st' :: wstate
  assumes "running_inv st" "snapshots st' = snapshots st @ [results st]" "results st' = results st"
  shows "progress_trace_ok (snapshots st')"
proof -
  have "running_inv st'"
    using running_publish [OF assms(1), of st'] assms(2,3) running_last_le_100 [OF assms(1)]
    by simp
  then show ?thesis by (simp add: running_inv_def)
qed

lemma publish_calibration_inv:
  assumes "running_inv st"
  shows "case publish_calibration e m summ st of
           Inl (x, st') \<Rightarrow> progress_trace_ok (snapshots st')
         | Inr st' \<Rightarrow> idle_inv st'"
proof (cases "adapt_get_rxgain e (rxgain_calls st)")
  case (Inl x)
  then show ?thesis
    using running_release_same [OF assms, of "release (st\<lparr>rxgain_calls := Suc (rxgain_calls st)\<rparr>)"]
    by (simp add: publish_calibration_def release_def)
next
  case g: (Inr g)
  show ?thesis
  proof (cases "adapt_get_digital_gain e (dgain_calls st)")
    case (Inl x)
    then show ?thesis
      using g running_release_same [OF assms,
          of "release (st\<lparr>rxgain_calls := Suc (rxgain_calls st),
                settings := (settings st)\<lparr>rx_gain := g\<rparr>,
                dgain_calls := Suc (dgain_calls st)\<rparr>)"]
      by (simp add: publish_calibration_def release_def)
  next
    case (Inr d)
    let ?r = "(results st)\<lparr>tx_median := meas_tx_median m, rx_median := meas_rx_median m,
                state := ''Idle'', stateprogress := 0,
                summary := ''Calibration was done:'' # summ\<rparr>"
    have ok: "progress_trace_ok (snapshots st @ [?r])"
      using trace_ok_snoc_zero [of "snapshots st" ?r] assms
      by (simp add: running_inv_def in_run_def)
    have "\<not> in_run ?r" by (simp add: in_run_def)
    then show ?thesis
      using g Inr ok by (simp add: publish_calibration_def release_def idle_inv_def)
  qed
qed

lemma calibrate_inv:
  assumes "idle_inv st"
  shows "case calibrate e st of
           Inl (x, st') \<Rightarrow> progress_trace_ok (snapshots st')
         | Inr st' \<Rightarrow> idle_inv st'"
proof -
  let ?st0 = "release (st\<lparr>results := (results st)\<lparr>state := ''RX Gain Calibration'',
                                                    stateprogress := 0\<rparr>\<rparr>)"
  have "progress_trace_ok (snapshots ?st0)"
    using trace_ok_snoc_zero [of "snapshots st"
        "(results st)\<lparr>state := ''RX Gain Calibration'', stateprogress := 0\<rparr>"] assms
    by (auto simp: idle_inv_def release_def)
  then have r0: "running_inv ?st0"
    by (simp add: running_inv_def release_def in_run_def)
  have p0: "stateprogress (results ?st0) \<le> progress_of 0"
    by (simp add: release_def progress_of_def)
  note loop = calibrate_rounds_inv [OF r0 p0 order_refl, of e "[]"]
  show ?thesis
  proof (cases "calibrate_rounds e [0..<N_ITER] [] ?st0")
    case (Inl a)
    then show ?thesis using loop
      by (auto simp: calibrate_def Let_def running_inv_def split: prod.splits)
  next
    case (Inr a)
    obtain summ st1 where a: "a = (summ, st1)" by (cases a)
    have r1: "running_inv st1" using loop Inr a by simp
    show ?thesis
    proof (cases "meas_get_samples e (meas_calls st1)")
      case (Inl x)
      then show ?thesis using Inr a r1
        by (simp add: calibrate_def Let_def running_inv_def)
    next
      case m: (Inr m)
      have r2: "running_inv (st1\<lparr>meas_calls := Suc (meas_calls st1)\<rparr>)"
        using running_frame [OF r1] by simp
      show ?thesis
        using publish_calibration_inv [OF r2, of e m summ] Inr a m
        by (simp add: calibrate_def Let_def)
    qed
  qed
qed

lemma worker_loop_inv:
  "idle_inv st \<Longrightarrow> progress_trace_ok (snapshots (snd (worker_loop e cmds st)))"
proof (induction cmds arbitrary: st)
  case Nil
  then show ?case by (simp add: idle_inv_def)
next
  case (Cons cmd cmds)
  show ?case
  proof (cases "cmd = ''calibrate''")
    case True
    show ?thesis
    proof (cases "calibrate e st")
      case (Inl a)
      then show ?thesis using True calibrate_inv [OF Cons.prems, of e]
        by (auto split: prod.splits)
    next
      case (Inr st')
      then show ?thesis using True calibrate_inv [OF Cons.prems, of e] Cons.IH [of st']
        by simp
    qed
  next
    case False
    then show ?thesis using Cons by (simp add: idle_inv_def)
  qed
qed

lemma finalizer_inv:
  "progress_trace_ok (snapshots st) \<Longrightarrow> progress_trace_ok (snapshots (finalizer st))"
  using trace_ok_snoc_zero [of "snapshots st"
      "(results st)\<lparr>state := ''Terminated'', stateprogress := 0\<rparr>"]
  by (simp add: finalizer_def release_def in_run_def)

section \<open>The adaptation cycle: invariant\<close>

lemma measure_body_inv:
  "measure_body env s = (r, s') \<Longrightarrow> list_all (train_respects env) (events s) \<Longrightarrow>
   list_all (train_respects env) (events s') \<and> v_i s' = v_i s \<and>
   (r = None \<longrightarrow> (v_state s' = ''model'' \<longrightarrow> get_n_meas env (v_i s') \<le> extStat_n_meas s'))"
  by (auto simp: measure_body_def Let_def split: sum.splits prod.splits if_splits)

lemma model_body_inv:
  "model_body env s = (r, s') \<Longrightarrow> get_n_meas env (v_i s) \<le> extStat_n_meas s \<Longrightarrow>
   list_all (train_respects env) (events s) \<Longrightarrow>
   list_all (train_respects env) (events s') \<and> (r = None \<longrightarrow> v_state s' \<noteq> ''model'')"
  by (auto simp: model_body_def Let_def split: sum.splits prod.splits if_splits var.splits option.splits)

lemma adapt_body_inv:
  "adapt_body env s = (r, s') \<Longrightarrow> list_all (train_respects env) (events s) \<Longrightarrow>
   list_all (train_respects env) (events s') \<and> (r = None \<longrightarrow> v_state s' \<noteq> ''model'')"
  by (auto simp: adapt_body_def split: option.splits)

lemma report_try_no_train: "list_all (train_respects env) (snd (report_try env s))"
  by (cases "v_dpddata s") (auto simp: report_try_def split: sum.splits option.splits)

lemma report_body_inv:
  "report_body env s = (r, s') \<Longrightarrow> list_all (train_respects env) (events s) \<Longrightarrow>
   list_all (train_respects env) (events s') \<and> v_state s' \<noteq> ''model''"
  using report_try_no_train [of env s]
  by (auto simp: report_body_def Let_def split: prod.splits option.splits)

lemma cycle_pass_inv: "cycle_inv env s \<Longrightarrow> cycle_inv env (cycle_pass env s)"
proof -
  assume inv: "cycle_inv env s"
  then have ev: "list_all (train_respects env) (events s)" by (simp add: cycle_inv_def)
  consider (measure) "v_state s = ''measure''" | (model) "v_state s = ''model''"
    | (adapt) "v_state s = ''adapt''" | (report) "v_state s = ''report''"
    | (other) "v_state s \<notin> {''measure'', ''model'', ''adapt'', ''report''}" by auto
  then show ?thesis
  proof cases
    case measure
    obtain r s' where b: "measure_body env s = (r, s')" by (cases "measure_body env s")
    show ?thesis using measure b measure_body_inv [OF b ev]
      by (cases r) (auto simp: cycle_pass_def cycle_inv_def)
  next
    case model
    obtain r s' where b: "model_body env s = (r, s')" by (cases "model_body env s")
    have "get_n_meas env (v_i s) \<le> extStat_n_meas s" using inv model by (simp add: cycle_inv_def)
    then show ?thesis using model b model_body_inv [OF b _ ev]
      by (cases r) (auto simp: cycle_pass_def cycle_inv_def)
  next
    case adapt
    obtain r s' where b: "adapt_body env s = (r, s')" by (cases "adapt_body env s")
    show ?thesis using adapt b adapt_body_inv [OF b ev]
      by (cases r) (auto simp: cycle_pass_def cycle_inv_def)
  next
    case report
    obtain r s' where b: "report_body env s = (r, s')" by (cases "report_body env s")
    show ?thesis using report b report_body_inv [OF b ev]
      by (cases r) (auto simp: cycle_pass_def cycle_inv_def)
  next
    case other
    then show ?thesis using inv by (auto simp: cycle_pass_def cycle_inv_def)
  qed
qed

lemma cycle_run_inv: "cycle_inv env s \<Longrightarrow> cycle_inv env (cycle_run env n s)"
  by (induction n arbitrary: s) (auto simp: cycle_pass_inv)

lemma initial_cycle_inv: "cycle_inv env (initial_cycle env d)"
  by (simp add: cycle_inv_def initial_cycle_def)

text \<open>Runs of the cycle with the test collaborators.\<close>

lemmas cycle_defs = cycle_pass_def measure_body_def model_body_def adapt_body_def report_body_def
  report_try_def cycle_stub_def initial_cycle_def num_iter_def stub_measurement_def Let_def

lemma stub_run_2: "cycle_run (cycle_stub 9) 2 (initial_cycle (cycle_stub 9) (Lut 1 [1])) =
   \<lparr>v_state = ''measure'', v_i = 1, v_n_meas = Some 2, v_tx = Bound None, v_rx = Bound None,
    v_phase_diff = Bound None, v_dpddata = Lut 1 [1], extStat_n_meas = 1, passes = 2,
    events = [LogIteration 0 stub_logging_data 2 None, LogLut 0 1 [1]]\<rparr>"
  by (simp add: cycle_defs numeral_2_eq_2)

lemma stub_run_3: "cycle_run (cycle_stub 9) 3 (initial_cycle (cycle_stub 9) (Lut 1 [1])) =
   \<lparr>v_state = ''model'', v_i = 1, v_n_meas = Some 2, v_tx = Bound None, v_rx = Bound None,
    v_phase_diff = Bound None, v_dpddata = Lut 1 [1], extStat_n_meas = 2, passes = 3,
    events = [LogIteration 0 stub_logging_data 2 None, LogLut 0 1 [1]]\<rparr>"
  by (simp add: cycle_defs eval_nat_numeral)

lemma stub_run_6: "cycle_run (cycle_stub 9) 6 (initial_cycle (cycle_stub 9) (Lut 1 [1])) =
   \<lparr>v_state = ''adapt'', v_i = 1, v_n_meas = Some 2, v_tx = Bound (Some [1]),
    v_rx = Bound (Some [1]), v_phase_diff = Bound (Some [0]), v_dpddata = Poly [1] [0],
    extStat_n_meas = 0, passes = 6,
    events = [LogIteration 0 stub_logging_data 2 None, LogLut 0 1 [1],
              LogError ''No data to calculate model'', Train 1 4 1]\<rparr>"
  by (simp add: cycle_defs eval_nat_numeral)

section \<open>Properties of the worker\<close>

text \<open>
  C1 (as amended). With \<open>N_ITER = 5\<close>, when the AGC returns success on the rounds before
  round \<open>k < 5\<close> and returns failure on round \<open>k\<close>, and the final capture and the two adapter
  reads return, the \<open>calibrate\<close> branch completes, exactly \<open>k + 1\<close> AGC rounds have run,
  and \<open>results['summary']\<close> is \<open>"Calibration was done:"\<close>, then \<open>"calibration run k:"\<close>, then
  the lines of round \<open>k\<close>'s AGC summary: the run's header is the second element, not the
  first.
\<close>

theorem calibrate_early_stop:
  assumes "k < N_ITER"
    and "\<forall>j<k. agc_ok e (agc_calls st + j)"
    and "agc_run e (agc_calls st + k) = Inr (False, msg)"
    and "meas_get_samples e (meas_calls st) = Inr m"
    and "adapt_get_rxgain e (rxgain_calls st) = Inr g"
    and "adapt_get_digital_gain e (dgain_calls st) = Inr d"
  shows "\<exists>st'. calibrate e st = Inr st' \<and>
           agc_calls st' = agc_calls st + (k + 1) \<and>
           summary (results st') = ''Calibration was done:'' # run_header k # py_split newline msg"
  using calibrate_returns [of k e st False msg m g d] assms by simp

theorem calibrate_early_stop_witness:
  "\<exists>st'. calibrate (agc_stub 2) (initial_wstate startup_settings) = Inr st' \<and>
         agc_calls st' = 3 \<and>
         summary (results st') =
           [''Calibration was done:'', ''calibration run 2:'', ''RX gain too low'']"
  using calibrate_early_stop [of 2 "agc_stub 2" "initial_wstate startup_settings"
      "''RX gain too low''" stub_measurement 30 "1 / 2"]
  by (simp add: agc_stub_def initial_wstate_def N_ITER_def agc_ok_def run_header_def
      str_nat.simps digit_char_def newline_def)

text \<open>
  C1 as stated fails: with the AGC failing on round 2, the first element of
  \<open>results['summary']\<close> after the run is \<open>"Calibration was done:"\<close>, not
  \<open>"calibration run 2:"\<close>.
\<close>

theorem summary_head_counterexample:
  "first_summary_line (calibrate (agc_stub 2) (initial_wstate startup_settings)) =
     Some ''Calibration was done:'' \<and>
   first_summary_line (calibrate (agc_stub 2) (initial_wstate startup_settings)) \<noteq>
     Some ''calibration run 2:''"
  by (simp add: first_summary_line_def calibrate_def publish_calibration_def agc_round_def
      release_def upt_conv_Cons agc_stub_def initial_wstate_def N_ITER_def del: upt_Suc)

text \<open>
  C5. Whenever the loop of \<open>engine_worker\<close> is left, by \<open>break\<close> on \<open>"quit"\<close> or by an
  exception escaping the dispatch, the worker ends with \<open>results['state'] = 'Terminated'\<close>
  and \<open>results['stateprogress'] = 0\<close>, and that is the value readers see last; the loop
  is left as soon as the queue delivers \<open>"quit"\<close>.
\<close>

theorem worker_exit_terminated:
  "(fst (engine_worker e cmds st) \<noteq> StillWaiting \<longrightarrow>
      state (results (snd (engine_worker e cmds st))) = ''Terminated'' \<and>
      stateprogress (results (snd (engine_worker e cmds st))) = 0 \<and>
      last (snapshots (snd (engine_worker e cmds st))) = results (snd (engine_worker e cmds st))) \<and>
   (''quit'' \<in> set cmds \<longrightarrow> fst (engine_worker e cmds st) \<noteq> StillWaiting)"
proof -
  have "''quit'' \<in> set cmds \<longrightarrow> fst (engine_worker e cmds st) \<noteq> StillWaiting"
    using quit_leaves_loop [of cmds e st]
    by (auto simp: engine_worker_def split: prod.splits loop_exit.splits)
  then show ?thesis
    by (auto simp: engine_worker_def finalizer_def release_def split: prod.splits loop_exit.splits)
qed

theorem worker_exit_terminated_witness:
  "fst (engine_worker (agc_stub 9) [''calibrate'', ''quit''] (initial_wstate startup_settings)) = Break \<and>
   state (results (snd (engine_worker (agc_stub 9) [''calibrate'', ''quit'']
     (initial_wstate startup_settings)))) = ''Terminated'' \<and>
   stateprogress (results (snd (engine_worker (agc_stub 9) [''calibrate'', ''quit'']
     (initial_wstate startup_settings)))) = 0 \<and>
   fst (engine_worker agc_broken [''calibrate''] (initial_wstate startup_settings)) =
     Raised (Exception ''no samples'') \<and>
   state (results (snd (engine_worker agc_broken [''calibrate'']
     (initial_wstate startup_settings)))) = ''Terminated'' \<and>
   stateprogress (results (snd (engine_worker agc_broken [''calibrate'']
     (initial_wstate startup_settings)))) = 0"
proof -
  have a: "fst (engine_worker (agc_stub 9) [''calibrate'', ''quit''] (initial_wstate startup_settings)) = Break"
    by (simp add: engine_worker_def calibrate_def publish_calibration_def agc_round_def
        release_def upt_conv_Cons agc_stub_def initial_wstate_def N_ITER_def del: upt_Suc)
  have b: "fst (engine_worker agc_broken [''calibrate''] (initial_wstate startup_settings)) =
     Raised (Exception ''no samples'')"
    by (simp add: engine_worker_def calibrate_def agc_round_def agc_broken_def
        release_def upt_conv_Cons agc_stub_def initial_wstate_def N_ITER_def del: upt_Suc)
  show ?thesis
    using a b
      worker_exit_terminated [of "agc_stub 9" "[''calibrate'', ''quit'']" "initial_wstate startup_settings"]
      worker_exit_terminated [of agc_broken "[''calibrate'']" "initial_wstate startup_settings"]
    by simp
qed


text \<open>
  C2. When every one of the five AGC rounds returns success and the final capture and the
  two adapter reads return, the \<open>calibrate\<close> branch completes after all 5 rounds with
  \<open>state = 'Idle'\<close>, \<open>stateprogress = 0\<close>, \<open>settings['rx_gain']\<close> and
  \<open>settings['digital_gain']\<close> equal to what \<open>get_rxgain\<close> and \<open>get_digital_gain\<close>
  returned, \<open>tx_median\<close> and \<open>rx_median\<close> equal to the medians of the final capture,
  and \<open>summary\<close> beginning with \<open>"Calibration was done:"\<close>.
\<close>

theorem calibrate_all_rounds:
  assumes "\<forall>j<N_ITER. agc_ok e (agc_calls st + j)"
    and "meas_get_samples e (meas_calls st) = Inr m"
    and "adapt_get_rxgain e (rxgain_calls st) = Inr g"
    and "adapt_get_digital_gain e (dgain_calls st) = Inr d"
  shows "\<exists>st'. calibrate e st = Inr st' \<and>
           agc_calls st' = agc_calls st + 5 \<and>
           state (results st') = ''Idle'' \<and>
           stateprogress (results st') = 0 \<and>
           rx_gain (settings st') = g \<and>
           digital_gain (settings st') = d \<and>
           tx_median (results st') = meas_tx_median m \<and>
           rx_median (results st') = meas_rx_median m \<and>
           take 1 (summary (results st')) = [''Calibration was done:'']"
proof -
  have "agc_ok e (agc_calls st + 4)" using assms(1) by (simp add: N_ITER_def)
  then obtain msg where l: "agc_run e (agc_calls st + 4) = Inr (True, msg)"
    by (auto simp: agc_ok_def split: sum.splits prod.splits)
  have "\<forall>j<4. agc_ok e (agc_calls st + j)" using assms(1) by (simp add: N_ITER_def)
  then show ?thesis
    using calibrate_returns [of 4 e st True msg m g d] l assms(2-4) by (simp add: N_ITER_def)
qed

theorem calibrate_all_rounds_witness:
  "\<exists>st'. calibrate (agc_stub 9) (initial_wstate startup_settings) = Inr st' \<and>
           agc_calls st' = 5 \<and>
           state (results st') = ''Idle'' \<and>
           stateprogress (results st') = 0 \<and>
           rx_gain (settings st') = 30 \<and>
           digital_gain (settings st') = 1 / 2 \<and>
           tx_median (results st') = 3 \<and>
           rx_median (results st') = 2 \<and>
           take 1 (summary (results st')) = [''Calibration was done:'']"
  using calibrate_all_rounds [of "agc_stub 9" "initial_wstate startup_settings" stub_measurement 30 "1 / 2"]
  by (simp add: agc_stub_def initial_wstate_def N_ITER_def agc_ok_def stub_measurement_def)

text \<open>
  C4 (as amended). When the rounds before round \<open>k\<close> succeed and round \<open>k\<close> ends the loop
  (it fails, or it is the last one), then after each round \<open>i \<le> k\<close> the worker has
  published, under the lock, \<open>stateprogress = round(100 * (i + 1) / N_ITER)\<close> and nothing
  else: \<open>results['summary']\<close> keeps the value it had before the loop. The list that is
  replaced (not appended to) by \<open>"calibration run i:"\<close> and the lines of the AGC summary is
  the worker's local variable \<open>summary\<close>, which after the loop holds round \<open>k\<close>'s lines
  only, whatever it held before.
\<close>

theorem rounds_publish_progress_only:
  assumes "k < N_ITER"
    and "\<forall>j<k. agc_ok e (agc_calls st + j)"
    and "agc_run e (agc_calls st + k) = Inr (b, msg)"
    and "\<not> b \<or> Suc k = N_ITER"
  shows "\<exists>st'. calibrate_rounds e [0..<N_ITER] summ st =
             Inr (run_header k # py_split newline msg, st') \<and>
           snapshots st' = snapshots st @
             map (\<lambda>i. (results st)\<lparr>stateprogress := round (100 * real (i + 1) / real N_ITER)\<rparr>)
               [0..<Suc k] \<and>
           results st' = (results st)\<lparr>stateprogress := round (100 * real (k + 1) / real N_ITER)\<rparr> \<and>
           summary (results st') = summary (results st)"
  using calibrate_rounds_stop [of k e st b msg N_ITER 0 summ] assms
  by (simp add: after_rounds_def progress_of_round del: upt_Suc)

theorem rounds_publish_progress_only_witness:
  "\<exists>st'. calibrate_rounds (agc_stub 2) [0..<N_ITER] [''stale''] (initial_wstate startup_settings) =
           Inr ([''calibration run 2:'', ''RX gain too low''], st') \<and>
         map stateprogress (snapshots st') = [20, 40, 60] \<and>
         summary (results st') = [''DPD has not been calibrated yet'']"
proof -
  have k: "2 < N_ITER" by (simp add: N_ITER_def)
  have ok: "\<forall>j<2. agc_ok (agc_stub 2) (agc_calls (initial_wstate startup_settings) + j)"
    by (simp add: agc_ok_def agc_stub_def initial_wstate_def)
  have fails: "agc_run (agc_stub 2) (agc_calls (initial_wstate startup_settings) + 2) =
      Inr (False, ''RX gain too low'')"
    by (simp add: agc_stub_def initial_wstate_def)
  have stop: "\<not> False \<or> Suc 2 = N_ITER" by simp
  obtain st' where
    r: "calibrate_rounds (agc_stub 2) [0..<N_ITER] [''stale''] (initial_wstate startup_settings) =
          Inr (run_header 2 # py_split newline ''RX gain too low'', st')"
    and s: "snapshots st' = snapshots (initial_wstate startup_settings) @
          map (\<lambda>i. (results (initial_wstate startup_settings))
                 \<lparr>stateprogress := round (100 * real (i + 1) / real N_ITER)\<rparr>) [0..<Suc 2]"
    and u: "summary (results st') = summary (results (initial_wstate startup_settings))"
    using rounds_publish_progress_only [OF k ok fails stop, of "[''stale'']"] by blast
  have h: "run_header 2 # py_split newline ''RX gain too low'' =
      [''calibration run 2:'', ''RX gain too low'']"
    by (simp add: run_header_def str_nat.simps digit_char_def newline_def)
  have p: "map stateprogress (snapshots st') = [20, 40, 60]"
    using s by (simp add: initial_wstate_def N_ITER_def upt_conv_Cons del: upt_Suc)
  have "summary (results st') = [''DPD has not been calibrated yet'']"
    using u by (simp add: initial_wstate_def initial_results_def)
  then show ?thesis using r h p by simp
qed

text \<open>
  C4 as stated fails: after round 0 of an AGC that succeeds with the summary \<open>"ok"\<close>,
  \<open>results['summary']\<close> is still the initial \<open>['DPD has not been calibrated yet']\<close>, not
  \<open>['calibration run 0:', 'ok']\<close>.
\<close>

theorem summary_between_rounds_counterexample:
  "published_summary (agc_round (agc_stub 9) 0 (initial_wstate startup_settings)) =
     Some [''DPD has not been calibrated yet''] \<and>
   published_summary (agc_round (agc_stub 9) 0 (initial_wstate startup_settings)) \<noteq>
     Some [''calibration run 0:'', ''ok'']"
  by (simp add: published_summary_def agc_round_def release_def agc_stub_def initial_wstate_def
      initial_results_def)

text \<open>
  C3. Whatever commands the worker processes and whatever the collaborators do, every
  value of \<open>stateprogress\<close> it publishes lies in \<open>[0, 100]\<close>; while a calibration run is
  in progress the successive values do not decrease; the value is 0 at the start of each
  run and whenever the state is \<open>'Idle'\<close>.
\<close>

theorem stateprogress_trace:
  "progress_trace_ok (snapshots (snd (engine_worker e cmds (initial_wstate s))))"
proof -
  have "idle_inv (initial_wstate s)"
    by (simp add: idle_inv_def initial_wstate_def trace_ok_Nil)
  then have "progress_trace_ok (snapshots (snd (worker_loop e cmds (initial_wstate s))))"
    by (rule worker_loop_inv)
  then show ?thesis
    using finalizer_inv [of "snd (worker_loop e cmds (initial_wstate s))"]
    by (auto simp: engine_worker_def split: prod.splits loop_exit.splits)
qed

theorem stateprogress_trace_witness:
  "map stateprogress (snapshots (snd (engine_worker (agc_stub 6)
       [''calibrate'', ''calibrate'', ''quit''] (initial_wstate startup_settings)))) =
     [0, 20, 40, 60, 80, 100, 0, 0, 20, 40, 0, 0] \<and>
   progress_trace_ok (snapshots (snd (engine_worker (agc_stub 6)
       [''calibrate'', ''calibrate'', ''quit''] (initial_wstate startup_settings))))"
proof -
  have "map stateprogress (snapshots (snd (engine_worker (agc_stub 6)
       [''calibrate'', ''calibrate'', ''quit''] (initial_wstate startup_settings)))) =
     [0, 20, 40, 60, 80, 100, 0, 0, 20, 40, 0, 0]"
    by (simp add: engine_worker_def finalizer_def calibrate_def publish_calibration_def
        agc_round_def release_def upt_conv_Cons agc_stub_def initial_wstate_def N_ITER_def
        progress_of_def del: upt_Suc)
  then show ?thesis
    using stateprogress_trace [of "agc_stub 6" "[''calibrate'', ''calibrate'', ''quit'']"
        startup_settings]
    by simp
qed


section \<open>Properties of the request dispatch\<close>

text \<open>
  C6. For every request, the dispatch sends an error response exactly when the method is
  none of \<open>trigger_run\<close>, \<open>reset\<close>, \<open>set_setting\<close>, \<open>get_settings\<close>, \<open>get_results\<close>,
  \<open>calibrate\<close>; every error response it sends carries a non-empty text (it is
  \<open>"request not understood"\<close>), and a request with one of the six known names yields
  no error response.
\<close>

theorem unknown_method_error:
  "((\<exists>a \<in> set (dispatch rq s r). is_error a) \<longleftrightarrow> req_method rq \<notin> set known_methods) \<and>
   (\<forall>a \<in> set (dispatch rq s r). is_error a \<longrightarrow> error_text a \<noteq> []) \<and>
   (req_method rq \<notin> set known_methods \<longrightarrow>
      dispatch rq s r = [SendError (req_addr rq) (req_msg_id rq) ''request not understood''])"
  by (simp add: dispatch_def known_methods_def Let_def)

theorem unknown_method_error_witness:
  "dispatch (stub_request ''status'') startup_settings initial_results =
     [SendError (''127.0.0.1'', 50055) 7 ''request not understood''] \<and>
   \<not> list_ex is_error (dispatch (stub_request ''calibrate'') startup_settings initial_results) \<and>
   \<not> list_ex is_error (dispatch (stub_request ''get_results'') startup_settings initial_results)"
  using unknown_method_error [of "stub_request ''status''" startup_settings initial_results]
    unknown_method_error [of "stub_request ''calibrate''" startup_settings initial_results]
    unknown_method_error [of "stub_request ''get_results''" startup_settings initial_results]
  by (simp add: stub_request_def known_methods_def list_ex_iff)

text \<open>
  C10. For the methods \<open>trigger_run\<close>, \<open>reset\<close>, \<open>set_setting\<close> and \<open>calibrate\<close> the
  dispatch sends no response of either kind; for every other method (\<open>get_settings\<close>,
  \<open>get_results\<close>, and the unknown ones) it sends exactly one; and a worker that dequeues
  \<open>trigger_run\<close> or \<open>reset\<close> goes on to the next command with its whole state, the
  settings and the results included, unchanged.
\<close>

theorem silent_methods:
  "(req_method rq \<in> {''trigger_run'', ''reset'', ''set_setting'', ''calibrate''} \<longrightarrow>
      filter is_response (dispatch rq s r) = []) \<and>
   (req_method rq \<notin> {''trigger_run'', ''reset'', ''set_setting'', ''calibrate''} \<longrightarrow>
      length (filter is_response (dispatch rq s r)) = 1) \<and>
   (cmd \<in> {''trigger_run'', ''reset''} \<longrightarrow> worker_loop e (cmd # cmds) st = worker_loop e cmds st)"
  by (auto simp: dispatch_def Let_def)

theorem silent_methods_witness:
  "dispatch (stub_request ''reset'') startup_settings initial_results =
     [LogRequest ''reset'' None, QueuePut ''reset''] \<and>
   filter is_response (dispatch (stub_request ''reset'') startup_settings initial_results) = [] \<and>
   length (filter is_response (dispatch (stub_request ''get_settings'') startup_settings initial_results)) = 1 \<and>
   worker_loop (agc_stub 0) [''reset''] (initial_wstate startup_settings) =
     (StillWaiting, initial_wstate startup_settings)"
  using silent_methods [of "stub_request ''reset''" startup_settings initial_results "''reset''"
      "agc_stub 0" "[]" "initial_wstate startup_settings"]
    silent_methods [of "stub_request ''get_settings''" startup_settings initial_results "''reset''"
      "agc_stub 0" "[]" "initial_wstate startup_settings"]
  by (simp add: stub_request_def dispatch_def Let_def)

section \<open>Properties of the adaptation cycle\<close>

text \<open>
  C7. When the pass starts in \<open>state = 'report'\<close> and an exception escapes the body of the
  inner \<open>try\<close>, the exception is logged (the error line of the iteration, then the
  traceback), \<open>i\<close> advances by exactly 1, the next state is \<open>'measure'\<close>, and the loop goes
  on with the next pass as long as the budget \<open>num_iter\<close> allows.
\<close>

theorem report_failure_counts:
  assumes "v_state s = ''report''" and "fst (report_try env s) = Some x"
  shows "v_i (cycle_pass env s) = v_i s + 1 \<and>
         v_state (cycle_pass env s) = ''measure'' \<and>
         events (cycle_pass env s) =
           events s @ snd (report_try env s) @
           [LogError (''Iteration '' @ str_nat (v_i s) @ '': Report failed.''), LogTraceback x] \<and>
         (v_i s < num_iter \<longrightarrow> cycle_run env (Suc n) s = cycle_run env n (cycle_pass env s))"
proof -
  obtain logged where t: "report_try env s = (Some x, logged)"
    using assms(2) by (cases "report_try env s") auto
  show ?thesis using assms(1) t by (simp add: cycle_pass_def report_body_def)
qed

theorem report_failure_counts_witness:
  "v_i (cycle_pass (cycle_stub 0) (initial_cycle (cycle_stub 0) (Lut 1 [1]))) = 1 \<and>
   v_state (cycle_pass (cycle_stub 0) (initial_cycle (cycle_stub 0) (Lut 1 [1]))) = ''measure'' \<and>
   events (cycle_pass (cycle_stub 0) (initial_cycle (cycle_stub 0) (Lut 1 [1]))) =
     [LogError ''Iteration 0: Report failed.'', LogTraceback (Exception ''capture failed'')]"
proof -
  have st: "v_state (initial_cycle (cycle_stub 0) (Lut 1 [1])) = ''report''"
    by (simp add: initial_cycle_def)
  have t: "report_try (cycle_stub 0) (initial_cycle (cycle_stub 0) (Lut 1 [1])) =
      (Some (Exception ''capture failed''), [])"
    by (simp add: report_try_def cycle_stub_def initial_cycle_def)
  then have f: "fst (report_try (cycle_stub 0) (initial_cycle (cycle_stub 0) (Lut 1 [1]))) =
      Some (Exception ''capture failed'')" by simp
  show ?thesis
    using report_failure_counts [OF st f, of 0] t
    by (simp add: initial_cycle_def str_nat.simps digit_char_def)
qed

text \<open>
  C8. A pass in \<open>state = 'measure'\<close> ends in \<open>'model'\<close> exactly when the branch raised
  nothing and \<open>extStat.n_meas\<close> is at least \<open>get_n_meas(i)\<close>, and otherwise in
  \<open>'measure'\<close> again. In every state the loop reaches from its start, \<open>state = 'model'\<close>
  holds only with \<open>extStat.n_meas\<close> at least \<open>get_n_meas(i)\<close>, and every call of
  \<open>model.train\<close> made so far was made with such a count. A pass in \<open>state = 'model'\<close>
  that finds \<open>None\<close> among \<open>tx\<close>, \<open>rx\<close>, \<open>phase_diff\<close> logs
  \<open>"No data to calculate model"\<close> and nothing else (so it does not call the fitter),
  and ends in \<open>'measure'\<close> with \<open>i\<close> unchanged.
\<close>

theorem model_needs_enough_captures:
  "(v_state s = ''measure'' \<longrightarrow>
      (v_state (cycle_pass env s) = ''model'' \<longleftrightarrow>
         fst (measure_body env s) = None \<and>
         get_n_meas env (v_i s) \<le> extStat_n_meas (cycle_pass env s)) \<and>
      (v_state (cycle_pass env s) \<noteq> ''model'' \<longrightarrow> v_state (cycle_pass env s) = ''measure'')) \<and>
   (v_state (cycle_run env n (initial_cycle env d)) = ''model'' \<longrightarrow>
      get_n_meas env (v_i (cycle_run env n (initial_cycle env d))) \<le>
        extStat_n_meas (cycle_run env n (initial_cycle env d))) \<and>
   list_all (train_respects env) (events (cycle_run env n (initial_cycle env d))) \<and>
   (v_state s = ''model'' \<and> v_tx s = Bound tx \<and> v_rx s = Bound rx \<and> v_phase_diff s = Bound pd \<and>
    (tx = None \<or> rx = None \<or> pd = None) \<longrightarrow>
      events (cycle_pass env s) = events s @ [LogError ''No data to calculate model''] \<and>
      v_state (cycle_pass env s) = ''measure'' \<and> v_i (cycle_pass env s) = v_i s)"
proof -
  have a: "v_state s = ''measure'' \<longrightarrow>
      (v_state (cycle_pass env s) = ''model'' \<longleftrightarrow>
         fst (measure_body env s) = None \<and>
         get_n_meas env (v_i s) \<le> extStat_n_meas (cycle_pass env s)) \<and>
      (v_state (cycle_pass env s) \<noteq> ''model'' \<longrightarrow> v_state (cycle_pass env s) = ''measure'')"
    by (auto simp: cycle_pass_def measure_body_def Let_def split: sum.splits prod.splits)
  have b: "cycle_inv env (cycle_run env n (initial_cycle env d))"
    using cycle_run_inv [OF initial_cycle_inv] .
  have c: "v_state s = ''model'' \<and> v_tx s = Bound tx \<and> v_rx s = Bound rx \<and> v_phase_diff s = Bound pd \<and>
    (tx = None \<or> rx = None \<or> pd = None) \<longrightarrow>
      events (cycle_pass env s) = events s @ [LogError ''No data to calculate model''] \<and>
      v_state (cycle_pass env s) = ''measure'' \<and> v_i (cycle_pass env s) = v_i s"
    by (auto simp: cycle_pass_def model_body_def)
  show ?thesis using a b c unfolding cycle_inv_def by blast
qed

theorem model_needs_enough_captures_witness:
  "v_state (cycle_run (cycle_stub 9) 2 (initial_cycle (cycle_stub 9) (Lut 1 [1]))) = ''measure'' \<and>
   extStat_n_meas (cycle_run (cycle_stub 9) 2 (initial_cycle (cycle_stub 9) (Lut 1 [1]))) = 1 \<and>
   v_state (cycle_run (cycle_stub 9) 3 (initial_cycle (cycle_stub 9) (Lut 1 [1]))) = ''model'' \<and>
   get_n_meas (cycle_stub 9) 1 \<le>
     extStat_n_meas (cycle_run (cycle_stub 9) 3 (initial_cycle (cycle_stub 9) (Lut 1 [1]))) \<and>
   events (cycle_pass (cycle_stub 9)
       (cycle_run (cycle_stub 9) 3 (initial_cycle (cycle_stub 9) (Lut 1 [1])))) =
     [LogIteration 0 stub_logging_data 2 None, LogLut 0 1 [1],
      LogError ''No data to calculate model''] \<and>
   v_state (cycle_pass (cycle_stub 9)
       (cycle_run (cycle_stub 9) 3 (initial_cycle (cycle_stub 9) (Lut 1 [1])))) = ''measure'' \<and>
   filter is_train (events (cycle_run (cycle_stub 9) 6 (initial_cycle (cycle_stub 9) (Lut 1 [1])))) =
     [Train 1 4 1] \<and>
   list_all (train_respects (cycle_stub 9))
     (events (cycle_run (cycle_stub 9) 6 (initial_cycle (cycle_stub 9) (Lut 1 [1]))))"
  using model_needs_enough_captures [of
      "cycle_run (cycle_stub 9) 3 (initial_cycle (cycle_stub 9) (Lut 1 [1]))" "cycle_stub 9" 3
      "Lut 1 [1]" None None None]
    model_needs_enough_captures [of
      "cycle_run (cycle_stub 9) 2 (initial_cycle (cycle_stub 9) (Lut 1 [1]))" "cycle_stub 9" 6
      "Lut 1 [1]" None None None]
  by (simp add: stub_run_2 stub_run_3 stub_run_6)

end
